theory Spec2Isabelle
  imports Main
begin

section \<open>The data model of dpp/coro/task.h\<close>

text \<open>
  A coroutine handle is the address of a coroutine frame; \<open>nullptr\<close> is \<open>None\<close>.
  The handle of an awaiting caller (\<open>coroutine_handle<>\<close>) is an address too: this
  file never looks inside a caller, it only stores the handle and hands it back.
\<close>

type_synonym addr = nat

text \<open>
  \<open>std::mutex\<close>: held or free. \<open>lock_calls\<close> counts the \<open>lock()\<close> calls that
  returned; the source has no such counter, it is here so that "how many times was the
  mutex acquired" can be read off a state.
\<close>

record std_mutex =
  locked :: bool
  lock_calls :: nat

text \<open>\<open>lock()\<close> on a held mutex does not return: \<open>None\<close>.\<close>

definition lock :: "std_mutex \<Rightarrow> std_mutex option" where
  "lock m = (if locked m then None else Some (m\<lparr>locked := True, lock_calls := Suc (lock_calls m)\<rparr>))"

definition unlock :: "std_mutex \<Rightarrow> std_mutex" where
  "unlock m = m\<lparr>locked := False\<rparr>"

text \<open>
  \<open>struct task_promise_base\<close>, with its default member initialisers in
  \<open>new_promise\<close> below. \<open>'e\<close> is what a \<open>std::exception_ptr\<close> points to.
\<close>

record 'e task_promise_base =
  mutex :: std_mutex
  parent :: "addr option"
  exception :: "'e option"
  is_sync :: bool

text \<open>
  \<open>task_promise<R>\<close> adds the \<open>std::optional<R> value\<close>; the specialisation
  \<open>task_promise<void>\<close> adds nothing. Both are this one record: \<open>returns_void\<close>
  says which of the two the template was instantiated to, and \<open>stored_value\<close> (the
  source's \<open>value\<close>) is never touched when it is true.
\<close>

record ('e, 'r) task_promise = "'e task_promise_base" +
  stored_value :: "'r option"
  returns_void :: bool

text \<open>
  The coroutine frame a \<open>task_handle<R>\<close> points to: \<open>handle.promise()\<close> and the
  mark that \<open>handle.done()\<close> reads (the coroutine is suspended at its final
  suspend point).
\<close>

record ('e, 'r) coroutine_frame =
  promise :: "('e, 'r) task_promise"
  at_final_suspend :: bool

type_synonym ('e, 'r) heap = "addr \<rightharpoonup> ('e, 'r) coroutine_frame"

text \<open>\<open>class task\<close>: its only member is the handle.\<close>

record task =
  handle :: "addr option"

text \<open>
  What an operation does instead of returning: the exception \<open>await_ready\<close> throws,
  the captured exception \<open>await_resume\<close> rethrows, a failed \<open>assert\<close>, a call the
  C++ standard gives no meaning to (a null or dangling handle dereferenced, an empty
  \<open>std::optional\<close> dereferenced), and a \<open>lock()\<close> that never returns. Every raise
  of the source happens before its first write, so the heap after \<open>Inl\<close> is the heap
  before.
\<close>

datatype 'e error =
    invalid_operation_exception string
  | rethrow_exception 'e
  | assertion_failure string
  | undefined_behaviour
  | blocks_on_mutex

text \<open>What a \<open>co_await\<close> on a task evaluates to: nothing for \<open>task<void>\<close>.\<close>

datatype 'r co_await_value = Void | Result 'r

definition new_promise :: "bool \<Rightarrow> ('e, 'r) task_promise" where
  "new_promise is_void =
     \<lparr>mutex = \<lparr>locked = False, lock_calls = 0\<rparr>, parent = None, exception = None,
      is_sync = True, stored_value = None, returns_void = is_void\<rparr>"

definition new_frame :: "bool \<Rightarrow> ('e, 'r) coroutine_frame" where
  "new_frame is_void = \<lparr>promise = new_promise is_void, at_final_suspend = False\<rparr>"

section \<open>The awaiter interface of task\<close>

text \<open>
  \<open>task::await_ready\<close>. The fast path returns before the \<open>std::lock_guard\<close> is
  constructed; the guard unlocks when the function returns.
\<close>

definition await_ready :: "task \<Rightarrow> ('e, 'r) heap \<Rightarrow> 'e error + (bool \<times> ('e, 'r) heap)" where
  "await_ready t s =
     (case handle t of
        None \<Rightarrow> Inl (invalid_operation_exception ''cannot co_await an empty task'')
      | Some h \<Rightarrow>
          (case s h of
             None \<Rightarrow> Inl undefined_behaviour
           | Some f \<Rightarrow>
               if is_sync (promise f) then Inr (True, s)
               else
                 (case lock (mutex (promise f)) of
                    None \<Rightarrow> Inl blocks_on_mutex
                  | Some m \<Rightarrow>
                      Inr (at_final_suspend f,
                           s(h \<mapsto> f\<lparr>promise := (promise f)\<lparr>mutex := unlock m\<rparr>\<rparr>)))))"

text \<open>
  \<open>task::await_suspend\<close>. There is no test of the handle: \<open>handle.promise()\<close> on
  a null handle is undefined.
\<close>

definition await_suspend :: "task \<Rightarrow> addr \<Rightarrow> ('e, 'r) heap \<Rightarrow> 'e error + (bool \<times> ('e, 'r) heap)" where
  "await_suspend t caller s =
     (case handle t of
        None \<Rightarrow> Inl undefined_behaviour
      | Some h \<Rightarrow>
          (case s h of
             None \<Rightarrow> Inl undefined_behaviour
           | Some f \<Rightarrow>
               (case lock (mutex (promise f)) of
                  None \<Rightarrow> Inl blocks_on_mutex
                | Some m \<Rightarrow>
                    if at_final_suspend f
                    then Inr (False, s(h \<mapsto> f\<lparr>promise := (promise f)\<lparr>mutex := unlock m\<rparr>\<rparr>))
                    else Inr (True,
                           s(h \<mapsto> f\<lparr>promise := (promise f)\<lparr>parent := Some caller, mutex := unlock m\<rparr>\<rparr>)))))"

text \<open>
  \<open>task::await_resume\<close>. \<open>std::exchange(value, std::nullopt)\<close> empties the slot
  and yields what it held; \<open>*\<close> on an empty optional is undefined.
\<close>

definition await_resume :: "task \<Rightarrow> ('e, 'r) heap \<Rightarrow> 'e error + ('r co_await_value \<times> ('e, 'r) heap)" where
  "await_resume t s =
     (case handle t of
        None \<Rightarrow> Inl undefined_behaviour
      | Some h \<Rightarrow>
          (case s h of
             None \<Rightarrow> Inl undefined_behaviour
           | Some f \<Rightarrow>
               (case exception (promise f) of
                  Some e \<Rightarrow> Inl (rethrow_exception e)
                | None \<Rightarrow>
                    if returns_void (promise f) then Inr (Void, s)
                    else
                      (case stored_value (promise f) of
                         None \<Rightarrow> Inl undefined_behaviour
                       | Some v \<Rightarrow>
                           Inr (Result v,
                                s(h \<mapsto> f\<lparr>promise := (promise f)\<lparr>stored_value := None\<rparr>\<rparr>))))))"

text \<open>\<open>task::done\<close>: \<open>handle.done()\<close>, with no test of the handle.\<close>

definition task_done :: "task \<Rightarrow> ('e, 'r) heap \<Rightarrow> 'e error + bool" where
  "task_done t s =
     (case handle t of
        None \<Rightarrow> Inl undefined_behaviour
      | Some h \<Rightarrow>
          (case s h of
             None \<Rightarrow> Inl undefined_behaviour
           | Some f \<Rightarrow> Inr (at_final_suspend f)))"

text \<open>
  The \<open>co_await\<close> of a task by a caller, as the language expands it for an awaiter
  whose \<open>await_suspend\<close> returns \<open>bool\<close>: \<open>await_ready\<close>; if it says false,
  \<open>await_suspend\<close> with the caller's handle; the caller stays suspended when that
  says true, and otherwise goes on to \<open>await_resume\<close> at once.
\<close>

datatype 'r co_await_outcome = Suspended | Resumed "'r co_await_value"

definition resume_now :: "task \<Rightarrow> ('e, 'r) heap \<Rightarrow> 'e error + ('r co_await_outcome \<times> ('e, 'r) heap)" where
  "resume_now t s =
     (case await_resume t s of
        Inl e \<Rightarrow> Inl e
      | Inr (v, s') \<Rightarrow> Inr (Resumed v, s'))"

definition co_await :: "task \<Rightarrow> addr \<Rightarrow> ('e, 'r) heap \<Rightarrow> 'e error + ('r co_await_outcome \<times> ('e, 'r) heap)" where
  "co_await t caller s =
     (case await_ready t s of
        Inl e \<Rightarrow> Inl e
      | Inr (ready, s1) \<Rightarrow>
          if ready then resume_now t s1
          else
            (case await_suspend t caller s1 of
               Inl e \<Rightarrow> Inl e
             | Inr (suspend, s2) \<Rightarrow>
                 if suspend then Inr (Suspended, s2) else resume_now t s2))"

section \<open>Construction, assignment and destruction of task objects\<close>

text \<open>
  \<open>task::~task\<close>. \<open>assert\<close> is the macro of \<open><cassert>\<close>, which this header
  does not define: it expands to nothing when \<open>NDEBUG\<close> is defined, so the build's
  choice is the parameter \<open>ndebug\<close>. \<open>handle.destroy()\<close> frees the frame.
\<close>

definition task_destructor :: "bool \<Rightarrow> task \<Rightarrow> ('e, 'r) heap \<Rightarrow> 'e error + ('e, 'r) heap" where
  "task_destructor ndebug t s =
     (case handle t of
        None \<Rightarrow> Inr s
      | Some h \<Rightarrow>
          (case s h of
             None \<Rightarrow> Inl undefined_behaviour
           | Some f \<Rightarrow>
               if \<not> ndebug \<and> \<not> at_final_suspend f
               then Inl (assertion_failure ''dpp::task's coroutine must be finished before destroying'')
               else Inr (s(h := None))))"

text \<open>
  The move constructor and the move assignment take a reference to another task
  object, which may be the object itself, so task objects live in a store of their
  own, beside the coroutine frames.
\<close>

record ('e, 'r) memory =
  objects :: "addr \<rightharpoonup> task"
  frames :: "('e, 'r) heap"

text \<open>
  \<open>std::exchange(other.handle, nullptr)\<close>: reads \<open>other.handle\<close>, stores
  \<open>nullptr\<close> there, and yields what it read.
\<close>

definition exchange_handle :: "addr \<Rightarrow> (addr \<rightharpoonup> task) \<Rightarrow> ('e error + (addr option \<times> (addr \<rightharpoonup> task)))" where
  "exchange_handle other objs =
     (case objs other of
        None \<Rightarrow> Inl undefined_behaviour
      | Some ot \<Rightarrow> Inr (handle ot, objs(other \<mapsto> ot\<lparr>handle := None\<rparr>)))"

text \<open>\<open>task::task(task &&other)\<close>: a new object at \<open>this\<close>.\<close>

definition move_construct :: "addr \<Rightarrow> addr \<Rightarrow> ('e, 'r) memory \<Rightarrow> 'e error + ('e, 'r) memory" where
  "move_construct this other m =
     (case exchange_handle other (objects m) of
        Inl e \<Rightarrow> Inl e
      | Inr (old, objs) \<Rightarrow> Inr (m\<lparr>objects := objs(this \<mapsto> \<lparr>handle = old\<rparr>)\<rparr>))"

text \<open>
  \<open>task::operator=(task &&other)\<close>: the right-hand side is evaluated, then stored
  in \<open>this->handle\<close>. Nothing is done with the handle \<open>this\<close> held before.
\<close>

definition move_assign :: "addr \<Rightarrow> addr \<Rightarrow> ('e, 'r) memory \<Rightarrow> 'e error + ('e, 'r) memory" where
  "move_assign this other m =
     (case objects m this of
        None \<Rightarrow> Inl undefined_behaviour
      | Some _ \<Rightarrow>
          (case exchange_handle other (objects m) of
             Inl e \<Rightarrow> Inl e
           | Inr (old, objs) \<Rightarrow>
               (case objs this of
                  None \<Rightarrow> Inl undefined_behaviour
                | Some tt \<Rightarrow> Inr (m\<lparr>objects := objs(this \<mapsto> tt\<lparr>handle := old\<rparr>)\<rparr>))))"

section \<open>The promise\<close>

text \<open>
  \<open>task_promise_base::await_transform\<close>. The three \<open>if constexpr\<close> branches differ
  in how the awaiter is obtained (a member \<open>operator co_await\<close>, a free one, or the
  expression itself); the argument carries which branch applies and what the awaiter's
  \<open>await_ready()\<close> answered in this call. The awaiter is returned as it is.
\<close>

datatype awaited = Member_co_await bool | Free_co_await bool | Awaiter_itself bool

fun awaiter_ready :: "awaited \<Rightarrow> bool" where
  "awaiter_ready (Member_co_await r) = r"
| "awaiter_ready (Free_co_await r) = r"
| "awaiter_ready (Awaiter_itself r) = r"

fun await_transform :: "awaited \<Rightarrow> ('e, 'z) task_promise_base_scheme \<Rightarrow> ('e, 'z) task_promise_base_scheme" where
  "await_transform (Member_co_await r) p = (if \<not> r then p\<lparr>is_sync := False\<rparr> else p)"
| "await_transform (Free_co_await r) p = (if \<not> r then p\<lparr>is_sync := False\<rparr> else p)"
| "await_transform (Awaiter_itself r) p = (if \<not> r then p\<lparr>is_sync := False\<rparr> else p)"

text \<open>\<open>std::suspend_never\<close> and \<open>std::suspend_always\<close>, by their \<open>await_ready\<close>.\<close>

datatype std_awaiter = suspend_never | suspend_always

fun std_await_ready :: "std_awaiter \<Rightarrow> bool" where
  "std_await_ready suspend_never = True"
| "std_await_ready suspend_always = False"

definition initial_suspend :: "('e, 'z) task_promise_base_scheme \<Rightarrow> std_awaiter" where
  "initial_suspend p = suspend_never"

text \<open>\<open>unhandled_exception\<close>; the argument is \<open>std::current_exception()\<close>.\<close>

definition unhandled_exception :: "'e \<Rightarrow> ('e, 'z) task_promise_base_scheme \<Rightarrow> ('e, 'z) task_promise_base_scheme" where
  "unhandled_exception e p = p\<lparr>exception := Some e\<rparr>"

definition return_value :: "'r \<Rightarrow> ('e, 'r) task_promise \<Rightarrow> ('e, 'r) task_promise" where
  "return_value expr p = p\<lparr>stored_value := Some expr\<rparr>"

definition return_void :: "('e, 'r) task_promise \<Rightarrow> ('e, 'r) task_promise" where
  "return_void p = p"

text \<open>\<open>get_return_object\<close>, for the promise of the frame at \<open>h\<close>.\<close>

definition get_return_object :: "addr \<Rightarrow> task" where
  "get_return_object h = \<lparr>handle = Some h\<rparr>"

text \<open>\<open>struct task_chain_final_awaiter\<close> has no member data.\<close>

datatype task_chain_final_awaiter = Task_chain_final_awaiter

definition final_suspend :: "('e, 'r) task_promise \<Rightarrow> task_chain_final_awaiter" where
  "final_suspend p = Task_chain_final_awaiter"

definition final_await_ready :: "task_chain_final_awaiter \<Rightarrow> bool" where
  "final_await_ready a = False"

text \<open>
  What \<open>task_chain_final_awaiter::await_suspend\<close> returns, a
  \<open>std::coroutine_handle<>\<close> the language then resumes in the task's place: a
  caller's handle, or \<open>std::noop_coroutine()\<close>, whose resumption does nothing.
\<close>

datatype resume_target = Coroutine addr | Noop_coroutine

definition final_await_suspend :: "task_chain_final_awaiter \<Rightarrow> addr \<Rightarrow> ('e, 'r) heap \<Rightarrow> 'e error + resume_target" where
  "final_await_suspend a h s =
     (case s h of
        None \<Rightarrow> Inl undefined_behaviour
      | Some f \<Rightarrow>
          (case parent (promise f) of
             Some c \<Rightarrow> Inr (Coroutine c)
           | None \<Rightarrow> Inr Noop_coroutine))"

definition final_await_resume :: "task_chain_final_awaiter \<Rightarrow> ('e, 'r) heap \<Rightarrow> ('e, 'r) heap" where
  "final_await_resume a s = s"

section \<open>The life of a task's coroutine\<close>

text \<open>
  How the language drives the promise. The body of a task ends in one of three ways:
  \<open>co_return expr\<close> calls \<open>return_value\<close>, \<open>co_return\<close> in a \<open>task<void>\<close>
  calls \<open>return_void\<close>, an exception that leaves the body calls
  \<open>unhandled_exception\<close>.
\<close>

datatype ('e, 'r) body_end = Co_return 'r | Co_return_void | Throw 'e

fun body_ends :: "('e, 'r) body_end \<Rightarrow> ('e, 'r) task_promise \<Rightarrow> ('e, 'r) task_promise" where
  "body_ends (Co_return expr) p = return_value expr p"
| "body_ends Co_return_void p = return_void p"
| "body_ends (Throw e) p = unhandled_exception e p"

text \<open>
  \<open>co_await promise.final_suspend()\<close>: the awaiter's \<open>await_ready\<close>; when it says
  false the coroutine is suspended at its final suspend point (from here on
  \<open>handle.done()\<close> is true), and then \<open>await_suspend\<close> is called with the
  coroutine's own handle and says what to resume. Were \<open>await_ready\<close> to say true, the
  coroutine would call \<open>await_resume\<close>, run off its end and free its frame.
\<close>

definition reach_final_suspend :: "addr \<Rightarrow> ('e, 'r) heap \<Rightarrow> 'e error + (resume_target \<times> ('e, 'r) heap)" where
  "reach_final_suspend h s =
     (case s h of
        None \<Rightarrow> Inl undefined_behaviour
      | Some f \<Rightarrow>
          (let a = final_suspend (promise f) in
           if final_await_ready a then Inr (Noop_coroutine, (final_await_resume a s)(h := None))
           else
             (let s1 = s(h \<mapsto> f\<lparr>at_final_suspend := True\<rparr>) in
              case final_await_suspend a h s1 of
                Inl e \<Rightarrow> Inl e
              | Inr target \<Rightarrow> Inr (target, s1))))"

definition finish :: "('e, 'r) body_end \<Rightarrow> addr \<Rightarrow> ('e, 'r) heap \<Rightarrow> 'e error + (resume_target \<times> ('e, 'r) heap)" where
  "finish e h s =
     (case s h of
        None \<Rightarrow> Inl undefined_behaviour
      | Some f \<Rightarrow> reach_final_suspend h (s(h \<mapsto> f\<lparr>promise := body_ends e (promise f)\<rparr>)))"

text \<open>
  A \<open>co_await expr\<close> in the body: \<open>await_transform\<close> first (which asks the awaiter
  whether it is ready), then the language asks the awaiter it got back a second time,
  and suspends the coroutine when that answer is false. \<open>Await a r\<close> is such a point,
  \<open>r\<close> being the second answer.
\<close>

datatype await_point = Await awaited bool

datatype run_state = Suspended_before "await_point list" | Ran_to_end resume_target

fun run_body :: "await_point list \<Rightarrow> ('e, 'r) body_end \<Rightarrow> addr \<Rightarrow> ('e, 'r) heap \<Rightarrow> 'e error + (run_state \<times> ('e, 'r) heap)" where
  "run_body [] e h s =
     (case finish e h s of
        Inl x \<Rightarrow> Inl x
      | Inr (target, s') \<Rightarrow> Inr (Ran_to_end target, s'))"
| "run_body (Await a r # rest) e h s =
     (case s h of
        None \<Rightarrow> Inl undefined_behaviour
      | Some f \<Rightarrow>
          (let s1 = s(h \<mapsto> f\<lparr>promise := await_transform a (promise f)\<rparr>) in
           if r then run_body rest e h s1 else Inr (Suspended_before rest, s1)))"

text \<open>
  Calling a coroutine that returns a task: a frame at \<open>h\<close> with a fresh promise,
  \<open>get_return_object\<close>, \<open>initial_suspend\<close>, and, as that never suspends, the body
  up to its first suspension or its end. Only then does the caller hold the task.
\<close>

definition start_task :: "bool \<Rightarrow> addr \<Rightarrow> await_point list \<Rightarrow> ('e, 'r) body_end \<Rightarrow> ('e, 'r) heap \<Rightarrow> 'e error + (task \<times> run_state \<times> ('e, 'r) heap)" where
  "start_task is_void h body e s =
     (let f = new_frame is_void; s0 = s(h \<mapsto> f); t = get_return_object h in
      if std_await_ready (initial_suspend (promise f))
      then (case run_body body e h s0 of
              Inl x \<Rightarrow> Inl x
            | Inr (st, s') \<Rightarrow> Inr (t, st, s'))
      else Inr (t, Suspended_before body, s0))"

text \<open>An await point whose awaiter does not answer "ready" first and "not ready" next.\<close>

fun consistent :: "await_point \<Rightarrow> bool" where
  "consistent (Await a r) = (r \<or> \<not> awaiter_ready a)"

section \<open>The operations of the core, one at a time\<close>

datatype ('e, 'r) core_op =
    Op_await_transform awaited
  | Op_return_value 'r
  | Op_return_void
  | Op_unhandled_exception 'e
  | Op_final_suspend
  | Op_await_ready
  | Op_await_suspend addr
  | Op_await_resume
  | Op_done
  | Op_destructor bool

definition on_promise :: "(('e, 'r) task_promise \<Rightarrow> ('e, 'r) task_promise) \<Rightarrow> addr \<Rightarrow> ('e, 'r) heap \<Rightarrow> ('e, 'r) heap" where
  "on_promise g h s = (case s h of None \<Rightarrow> s | Some f \<Rightarrow> s(h \<mapsto> f\<lparr>promise := g (promise f)\<rparr>))"

text \<open>
  The heap after an operation on the coroutine at \<open>h\<close> (for the operations of
  \<open>task\<close>, through a task holding that handle); an operation that does not return
  leaves the heap as it was.
\<close>

fun perform :: "('e, 'r) core_op \<Rightarrow> addr \<Rightarrow> ('e, 'r) heap \<Rightarrow> ('e, 'r) heap" where
  "perform (Op_await_transform a) h s = on_promise (await_transform a) h s"
| "perform (Op_return_value v) h s = on_promise (return_value v) h s"
| "perform Op_return_void h s = on_promise return_void h s"
| "perform (Op_unhandled_exception e) h s = on_promise (unhandled_exception e) h s"
| "perform Op_final_suspend h s = (case reach_final_suspend h s of Inl _ \<Rightarrow> s | Inr (_, s') \<Rightarrow> s')"
| "perform Op_await_ready h s = (case await_ready \<lparr>handle = Some h\<rparr> s of Inl _ \<Rightarrow> s | Inr (_, s') \<Rightarrow> s')"
| "perform (Op_await_suspend c) h s = (case await_suspend \<lparr>handle = Some h\<rparr> c s of Inl _ \<Rightarrow> s | Inr (_, s') \<Rightarrow> s')"
| "perform Op_await_resume h s = (case await_resume \<lparr>handle = Some h\<rparr> s of Inl _ \<Rightarrow> s | Inr (_, s') \<Rightarrow> s')"
| "perform Op_done h s = (case task_done \<lparr>handle = Some h\<rparr> s of Inl _ \<Rightarrow> s | Inr _ \<Rightarrow> s)"
| "perform (Op_destructor ndebug) h s = (case task_destructor ndebug \<lparr>handle = Some h\<rparr> s of Inl _ \<Rightarrow> s | Inr s' \<Rightarrow> s')"

fun perform_all :: "(('e, 'r) core_op \<times> addr) list \<Rightarrow> ('e, 'r) heap \<Rightarrow> ('e, 'r) heap" where
  "perform_all [] s = s"
| "perform_all ((op, h) # ops) s = perform_all ops (perform op h s)"

section \<open>Registration against completion, step by step\<close>

text \<open>
  Two threads on one task that has suspended and is finishing on another thread. The
  waiter runs \<open>task::await_suspend\<close>, one step for each of: the \<open>lock_guard\<close>'s
  \<open>lock()\<close> (which waits while the mutex is held), the test of \<open>handle.done()\<close>,
  the store to \<open>parent\<close>, and the return, which unlocks. The completer runs the end of
  the coroutine: the suspension at the final suspend point, then
  \<open>task_chain_final_awaiter::await_suspend\<close>. The completer never touches the
  mutex, as in the source, so nothing keeps its steps out of the waiter's critical
  section.
\<close>

datatype thread = Waiter | Completer

datatype waiter_pc = At_lock | At_done_test | At_parent_store | At_return bool | Returned bool

datatype completer_pc = Before_final_suspend | At_final_await_suspend | Transferred resume_target

record ('e, 'r) race =
  shared :: "('e, 'r) heap"
  waiter :: waiter_pc
  completer :: completer_pc

definition waiter_step :: "addr \<Rightarrow> addr \<Rightarrow> ('e, 'r) race \<Rightarrow> ('e, 'r) race" where
  "waiter_step h caller st =
     (case shared st h of
        None \<Rightarrow> st
      | Some f \<Rightarrow>
          (case waiter st of
             At_lock \<Rightarrow>
               (case lock (mutex (promise f)) of
                  None \<Rightarrow> st
                | Some m \<Rightarrow>
                    st\<lparr>shared := (shared st)(h \<mapsto> f\<lparr>promise := (promise f)\<lparr>mutex := m\<rparr>\<rparr>),
                       waiter := At_done_test\<rparr>)
           | At_done_test \<Rightarrow>
               st\<lparr>waiter := (if at_final_suspend f then At_return False else At_parent_store)\<rparr>
           | At_parent_store \<Rightarrow>
               st\<lparr>shared := (shared st)(h \<mapsto> f\<lparr>promise := (promise f)\<lparr>parent := Some caller\<rparr>\<rparr>),
                  waiter := At_return True\<rparr>
           | At_return b \<Rightarrow>
               st\<lparr>shared := (shared st)(h \<mapsto> f\<lparr>promise := (promise f)\<lparr>mutex := unlock (mutex (promise f))\<rparr>\<rparr>),
                  waiter := Returned b\<rparr>
           | Returned b \<Rightarrow> st))"

definition completer_step :: "addr \<Rightarrow> ('e, 'r) race \<Rightarrow> ('e, 'r) race" where
  "completer_step h st =
     (case shared st h of
        None \<Rightarrow> st
      | Some f \<Rightarrow>
          (case completer st of
             Before_final_suspend \<Rightarrow>
               st\<lparr>shared := (shared st)(h \<mapsto> f\<lparr>at_final_suspend := True\<rparr>),
                  completer := At_final_await_suspend\<rparr>
           | At_final_await_suspend \<Rightarrow>
               (case final_await_suspend Task_chain_final_awaiter h (shared st) of
                  Inl _ \<Rightarrow> st
                | Inr target \<Rightarrow> st\<lparr>completer := Transferred target\<rparr>)
           | Transferred _ \<Rightarrow> st))"

fun run_schedule :: "thread list \<Rightarrow> addr \<Rightarrow> addr \<Rightarrow> ('e, 'r) race \<Rightarrow> ('e, 'r) race" where
  "run_schedule [] h caller st = st"
| "run_schedule (Waiter # ts) h caller st = run_schedule ts h caller (waiter_step h caller st)"
| "run_schedule (Completer # ts) h caller st = run_schedule ts h caller (completer_step h st)"

text \<open>
  A task that has suspended once and is not done, nobody waiting yet; and the two
  threads at their first steps on it.
\<close>

definition suspended_task :: "(string, nat) coroutine_frame" where
  "suspended_task = \<lparr>promise = (new_promise False)\<lparr>is_sync := False\<rparr>, at_final_suspend = False\<rparr>"

definition race_start :: "(string, nat) race" where
  "race_start = \<lparr>shared = [0 \<mapsto> suspended_task], waiter = At_lock, completer = Before_final_suspend\<rparr>"

text \<open>
  What every interleaving keeps: \<open>parent\<close> is empty or the caller; it is the caller
  only once the waiter is past its store; and the completer has resumed a handle only
  if that handle is the stored caller.
\<close>

definition race_inv :: "addr \<Rightarrow> addr \<Rightarrow> ('e, 'r) race \<Rightarrow> bool" where
  "race_inv h caller st =
     (case shared st h of
        None \<Rightarrow> False
      | Some f \<Rightarrow>
          (case parent (promise f) of
             None \<Rightarrow> waiter st \<noteq> At_return True \<and> waiter st \<noteq> Returned True
                      \<and> (case completer st of Transferred (Coroutine c) \<Rightarrow> False | _ \<Rightarrow> True)
           | Some p \<Rightarrow> p = caller \<and> (waiter st = At_return True \<or> waiter st = Returned True)
                      \<and> (case completer st of Transferred (Coroutine c) \<Rightarrow> c = caller | _ \<Rightarrow> True)))"

text \<open>
  Whether the mutex of the coroutine at \<open>h\<close> is held, how many times it has been
  acquired, and the places of the waiter between its \<open>lock()\<close> and the unlock at its
  return.
\<close>

definition mutex_held :: "addr \<Rightarrow> ('e, 'r) heap \<Rightarrow> bool" where
  "mutex_held h s = (case s h of None \<Rightarrow> False | Some f \<Rightarrow> locked (mutex (promise f)))"

definition mutex_lock_calls :: "addr \<Rightarrow> ('e, 'r) heap \<Rightarrow> nat" where
  "mutex_lock_calls h s = (case s h of None \<Rightarrow> 0 | Some f \<Rightarrow> lock_calls (mutex (promise f)))"

fun in_critical_section :: "waiter_pc \<Rightarrow> bool" where
  "in_critical_section At_lock = False"
| "in_critical_section At_done_test = True"
| "in_critical_section At_parent_store = True"
| "in_critical_section (At_return b) = True"
| "in_critical_section (Returned b) = False"

text \<open>
  \<open>task::await_ready\<close> step by step, for a task bound to the coroutine at \<open>h\<close>:
  the test of \<open>is_sync\<close>, which returns true at once; else the \<open>lock_guard\<close>'s
  \<open>lock()\<close> (which waits while the mutex is held), the read of
  \<open>handle.done()\<close>, and the return, which unlocks.
\<close>

datatype ready_pc = At_sync_test | At_ready_lock | At_done_read | At_ready_return bool | Ready_returned bool

definition ready_step :: "addr \<Rightarrow> ready_pc \<times> ('e, 'r) heap \<Rightarrow> ready_pc \<times> ('e, 'r) heap" where
  "ready_step h = (\<lambda>(pc, s).
     case s h of
       None \<Rightarrow> (pc, s)
     | Some f \<Rightarrow>
         (case pc of
            At_sync_test \<Rightarrow>
              if is_sync (promise f) then (Ready_returned True, s) else (At_ready_lock, s)
          | At_ready_lock \<Rightarrow>
              (case lock (mutex (promise f)) of
                 None \<Rightarrow> (pc, s)
               | Some m \<Rightarrow> (At_done_read, s(h \<mapsto> f\<lparr>promise := (promise f)\<lparr>mutex := m\<rparr>\<rparr>)))
          | At_done_read \<Rightarrow> (At_ready_return (at_final_suspend f), s)
          | At_ready_return b \<Rightarrow>
              (Ready_returned b,
               s(h \<mapsto> f\<lparr>promise := (promise f)\<lparr>mutex := unlock (mutex (promise f))\<rparr>\<rparr>))
          | Ready_returned b \<Rightarrow> (pc, s)))"

fun ready_in_critical_section :: "ready_pc \<Rightarrow> bool" where
  "ready_in_critical_section At_sync_test = False"
| "ready_in_critical_section At_ready_lock = False"
| "ready_in_critical_section At_done_read = True"
| "ready_in_critical_section (At_ready_return b) = True"
| "ready_in_critical_section (Ready_returned b) = False"

section \<open>Registering a waiter\<close>

text \<open>
  Along every schedule of the two threads, from a start where the mutex is free: the
  mutex is held exactly while the waiter is between its \<open>lock()\<close> and its return,
  and it has been acquired once from the waiter's \<open>lock()\<close> on, never twice.
\<close>

lemma waiter_step_section:
  assumes "shared st h = Some f0"
    and "mutex_held h (shared st) = in_critical_section (waiter st)"
    and "mutex_lock_calls h (shared st) = n0 + (if waiter st = At_lock then 0 else 1)"
  shows "(\<exists>f1. shared (waiter_step h caller st) h = Some f1)
       \<and> mutex_held h (shared (waiter_step h caller st)) = in_critical_section (waiter (waiter_step h caller st))
       \<and> mutex_lock_calls h (shared (waiter_step h caller st))
           = n0 + (if waiter (waiter_step h caller st) = At_lock then 0 else 1)"
  using assms
  by (cases "waiter st")
     (auto simp add: waiter_step_def mutex_held_def mutex_lock_calls_def lock_def unlock_def)

lemma completer_step_section:
  assumes "shared st h = Some f0"
    and "mutex_held h (shared st) = in_critical_section (waiter st)"
    and "mutex_lock_calls h (shared st) = n0 + (if waiter st = At_lock then 0 else 1)"
  shows "(\<exists>f1. shared (completer_step h st) h = Some f1)
       \<and> mutex_held h (shared (completer_step h st)) = in_critical_section (waiter (completer_step h st))
       \<and> mutex_lock_calls h (shared (completer_step h st))
           = n0 + (if waiter (completer_step h st) = At_lock then 0 else 1)"
  using assms
  by (cases "completer st")
     (auto simp add: completer_step_def mutex_held_def mutex_lock_calls_def final_await_suspend_def
        split: option.splits)

lemma run_schedule_section:
  assumes "shared st h = Some f0"
    and "mutex_held h (shared st) = in_critical_section (waiter st)"
    and "mutex_lock_calls h (shared st) = n0 + (if waiter st = At_lock then 0 else 1)"
  shows "mutex_held h (shared (run_schedule ts h caller st))
           = in_critical_section (waiter (run_schedule ts h caller st))
       \<and> mutex_lock_calls h (shared (run_schedule ts h caller st))
           = n0 + (if waiter (run_schedule ts h caller st) = At_lock then 0 else 1)"
  using assms
proof (induction ts arbitrary: st f0)
  case Nil
  then show ?case by simp
next
  case (Cons t ts)
  show ?case
  proof (cases t)
    case Waiter
    from waiter_step_section [OF Cons.prems, of caller] obtain f1 where
      "shared (waiter_step h caller st) h = Some f1"
      "mutex_held h (shared (waiter_step h caller st)) = in_critical_section (waiter (waiter_step h caller st))"
      "mutex_lock_calls h (shared (waiter_step h caller st))
           = n0 + (if waiter (waiter_step h caller st) = At_lock then 0 else 1)"
      by blast
    from Cons.IH [OF this] Waiter show ?thesis by simp
  next
    case Completer
    from completer_step_section [OF Cons.prems] obtain f1 where
      "shared (completer_step h st) h = Some f1"
      "mutex_held h (shared (completer_step h st)) = in_critical_section (waiter (completer_step h st))"
      "mutex_lock_calls h (shared (completer_step h st))
           = n0 + (if waiter (completer_step h st) = At_lock then 0 else 1)"
      by blast
    from Cons.IH [OF this] Completer show ?thesis by simp
  qed
qed

text \<open>
  C1. On a task bound to a live frame. While the mutex is held, \<open>await_suspend\<close>
  does not get past its \<open>lock()\<close>. When the mutex is free, \<open>await_suspend\<close>
  returns; the mutex has been acquired exactly once and is free again; the answer is
  true exactly if the coroutine was not done; the caller is stored as \<open>parent\<close>
  exactly in that case and \<open>parent\<close> is untouched otherwise; nothing else in the
  frame and no other frame changes. Step by step, this is the waiter run alone: after
  its first step it stands at the test of \<open>done\<close>, after its second at the return
  (done) or at the store to \<open>parent\<close> (not done); and in every state of every
  schedule the mutex is held exactly when the waiter stands between its \<open>lock()\<close>
  and its return, so at the test and at the store, and has been acquired once.
\<close>

theorem C1_await_suspend_registers:
  assumes "handle t = Some h" and "s h = Some f"
  shows "(locked (mutex (promise f)) \<longrightarrow>
            await_suspend t caller s = Inl blocks_on_mutex
            \<and> waiter_step h caller \<lparr>shared = s, waiter = At_lock, completer = c\<rparr>
                = \<lparr>shared = s, waiter = At_lock, completer = c\<rparr>)
       \<and> (\<not> locked (mutex (promise f)) \<longrightarrow>
            (\<exists>f'. await_suspend t caller s = Inr (\<not> at_final_suspend f, s(h \<mapsto> f'))
               \<and> lock_calls (mutex (promise f')) = Suc (lock_calls (mutex (promise f)))
               \<and> \<not> locked (mutex (promise f'))
               \<and> parent (promise f') = (if at_final_suspend f then parent (promise f) else Some caller)
               \<and> exception (promise f') = exception (promise f)
               \<and> is_sync (promise f') = is_sync (promise f)
               \<and> stored_value (promise f') = stored_value (promise f)
               \<and> returns_void (promise f') = returns_void (promise f)
               \<and> at_final_suspend f' = at_final_suspend f
               \<and> run_schedule [Waiter, Waiter, Waiter, Waiter] h caller
                     \<lparr>shared = s, waiter = At_lock, completer = c\<rparr>
                   = \<lparr>shared = s(h \<mapsto> f'), waiter = Returned (\<not> at_final_suspend f), completer = c\<rparr>)
            \<and> waiter (run_schedule [Waiter] h caller \<lparr>shared = s, waiter = At_lock, completer = c\<rparr>)
                = At_done_test
            \<and> waiter (run_schedule [Waiter, Waiter] h caller \<lparr>shared = s, waiter = At_lock, completer = c\<rparr>)
                = (if at_final_suspend f then At_return False else At_parent_store)
            \<and> (\<forall>ts. mutex_held h (shared (run_schedule ts h caller \<lparr>shared = s, waiter = At_lock, completer = c\<rparr>))
                     = in_critical_section
                         (waiter (run_schedule ts h caller \<lparr>shared = s, waiter = At_lock, completer = c\<rparr>))
                   \<and> mutex_lock_calls h (shared (run_schedule ts h caller \<lparr>shared = s, waiter = At_lock, completer = c\<rparr>))
                     = lock_calls (mutex (promise f))
                       + (if waiter (run_schedule ts h caller \<lparr>shared = s, waiter = At_lock, completer = c\<rparr>) = At_lock
                          then 0 else 1)))"
proof (intro conjI impI)
  assume l: "locked (mutex (promise f))"
  with assms show "await_suspend t caller s = Inl blocks_on_mutex"
    by (simp add: await_suspend_def lock_def)
  from l assms show "waiter_step h caller \<lparr>shared = s, waiter = At_lock, completer = c\<rparr>
                = \<lparr>shared = s, waiter = At_lock, completer = c\<rparr>"
    by (simp add: waiter_step_def lock_def)
next
  assume nl: "\<not> locked (mutex (promise f))"
  let ?st0 = "\<lparr>shared = s, waiter = At_lock, completer = c\<rparr>"
  show "\<exists>f'. await_suspend t caller s = Inr (\<not> at_final_suspend f, s(h \<mapsto> f'))
               \<and> lock_calls (mutex (promise f')) = Suc (lock_calls (mutex (promise f)))
               \<and> \<not> locked (mutex (promise f'))
               \<and> parent (promise f') = (if at_final_suspend f then parent (promise f) else Some caller)
               \<and> exception (promise f') = exception (promise f)
               \<and> is_sync (promise f') = is_sync (promise f)
               \<and> stored_value (promise f') = stored_value (promise f)
               \<and> returns_void (promise f') = returns_void (promise f)
               \<and> at_final_suspend f' = at_final_suspend f
               \<and> run_schedule [Waiter, Waiter, Waiter, Waiter] h caller ?st0
                   = \<lparr>shared = s(h \<mapsto> f'), waiter = Returned (\<not> at_final_suspend f), completer = c\<rparr>"
  proof (cases "at_final_suspend f")
    case True
    with assms nl show ?thesis
      by (intro exI [of _ "f\<lparr>promise := (promise f)\<lparr>mutex := unlock (the (lock (mutex (promise f))))\<rparr>\<rparr>"])
         (simp add: await_suspend_def waiter_step_def lock_def unlock_def)
  next
    case False
    with assms nl show ?thesis
      by (intro exI [of _ "f\<lparr>promise := (promise f)
            \<lparr>parent := Some caller, mutex := unlock (the (lock (mutex (promise f))))\<rparr>\<rparr>"])
         (simp add: await_suspend_def waiter_step_def lock_def unlock_def)
  qed
  from assms nl show "waiter (run_schedule [Waiter] h caller ?st0) = At_done_test"
    by (simp add: waiter_step_def lock_def)
  from assms nl show "waiter (run_schedule [Waiter, Waiter] h caller ?st0)
                = (if at_final_suspend f then At_return False else At_parent_store)"
    by (simp add: waiter_step_def lock_def)
  have "shared ?st0 h = Some f" "mutex_held h (shared ?st0) = in_critical_section (waiter ?st0)"
    "mutex_lock_calls h (shared ?st0) = lock_calls (mutex (promise f)) + (if waiter ?st0 = At_lock then 0 else 1)"
    using assms nl by (simp_all add: mutex_held_def mutex_lock_calls_def)
  from run_schedule_section [OF this]
  show "\<forall>ts. mutex_held h (shared (run_schedule ts h caller ?st0))
                     = in_critical_section (waiter (run_schedule ts h caller ?st0))
                   \<and> mutex_lock_calls h (shared (run_schedule ts h caller ?st0))
                     = lock_calls (mutex (promise f))
                       + (if waiter (run_schedule ts h caller ?st0) = At_lock then 0 else 1)"
    by blast
qed

theorem C1_await_suspend_registers_witness:
  "await_suspend \<lparr>handle = Some 0\<rparr> 7
      [0 \<mapsto> \<lparr>promise = (new_promise False :: (string, nat) task_promise)
                 \<lparr>mutex := \<lparr>locked = True, lock_calls = 1\<rparr>\<rparr>,
              at_final_suspend = False\<rparr>]
     = Inl blocks_on_mutex
   \<and> (\<exists>f'. await_suspend \<lparr>handle = Some 0\<rparr> 7 [0 \<mapsto> suspended_task] = Inr (True, [0 \<mapsto> f'])
         \<and> lock_calls (mutex (promise f')) = 1 \<and> \<not> locked (mutex (promise f'))
         \<and> parent (promise f') = Some 7)
   \<and> waiter (run_schedule [Waiter] 0 7 race_start) = At_done_test
   \<and> mutex_held 0 (shared (run_schedule [Waiter] 0 7 race_start))
   \<and> waiter (run_schedule [Waiter, Waiter] 0 7 race_start) = At_parent_store
   \<and> mutex_held 0 (shared (run_schedule [Waiter, Waiter] 0 7 race_start))
   \<and> \<not> mutex_held 0 (shared (run_schedule [Waiter, Waiter, Waiter, Waiter] 0 7 race_start))"
  using C1_await_suspend_registers
    [where t = "\<lparr>handle = Some 0\<rparr>" and h = 0 and caller = 7
       and s = "[0 \<mapsto> \<lparr>promise = (new_promise False :: (string, nat) task_promise)
                 \<lparr>mutex := \<lparr>locked = True, lock_calls = 1\<rparr>\<rparr>,
              at_final_suspend = False\<rparr>]"
       and f = "\<lparr>promise = (new_promise False :: (string, nat) task_promise)
                 \<lparr>mutex := \<lparr>locked = True, lock_calls = 1\<rparr>\<rparr>,
              at_final_suspend = False\<rparr>"]
    C1_await_suspend_registers
    [where t = "\<lparr>handle = Some 0\<rparr>" and h = 0 and caller = 7 and c = Before_final_suspend
       and s = "[0 \<mapsto> suspended_task]" and f = suspended_task]
  by (auto simp add: new_promise_def suspended_task_def race_start_def waiter_step_def
        mutex_held_def lock_def unlock_def)

section \<open>The end of the body\<close>

lemma final_await_suspend_live:
  "s h = Some f \<Longrightarrow>
   final_await_suspend a h s = Inr (case parent (promise f) of Some c \<Rightarrow> Coroutine c | None \<Rightarrow> Noop_coroutine)"
  by (simp add: final_await_suspend_def split: option.splits)

lemma parent_body_ends [simp]: "parent (body_ends e p) = parent p"
  by (cases e) (simp_all add: return_value_def return_void_def unhandled_exception_def)

lemma is_sync_body_ends [simp]: "is_sync (body_ends e p) = is_sync p"
  by (cases e) (simp_all add: return_value_def return_void_def unhandled_exception_def)

lemma mutex_body_ends [simp]: "mutex (body_ends e p) = mutex p"
  by (cases e) (simp_all add: return_value_def return_void_def unhandled_exception_def)

lemma finish_live:
  "s h = Some f \<Longrightarrow>
   finish e h s =
     Inr (case parent (promise f) of Some c \<Rightarrow> Coroutine c | None \<Rightarrow> Noop_coroutine,
          s(h \<mapsto> f\<lparr>promise := body_ends e (promise f), at_final_suspend := True\<rparr>))"
  by (simp add: finish_def reach_final_suspend_def final_await_ready_def final_await_suspend_live
        Let_def)

text \<open>
  C2. However the body ends, the final awaiter's \<open>await_ready\<close> is false, so the
  coroutine suspends at its final suspend point; its \<open>await_suspend\<close> returns the
  stored parent if there is one and the no-op coroutine otherwise; its
  \<open>await_resume\<close> changes nothing. Put together in \<open>finish\<close>: the frame ends marked
  done, holding what the body produced, and control goes to that handle.
\<close>

theorem C2_final_awaiter:
  assumes "s h = Some f"
  shows "\<not> final_await_ready (final_suspend (body_ends e (promise f)))
       \<and> final_await_suspend a h s = Inr (case parent (promise f) of Some c \<Rightarrow> Coroutine c | None \<Rightarrow> Noop_coroutine)
       \<and> final_await_resume a s = s
       \<and> finish e h s =
           Inr (case parent (promise f) of Some c \<Rightarrow> Coroutine c | None \<Rightarrow> Noop_coroutine,
                s(h \<mapsto> f\<lparr>promise := body_ends e (promise f), at_final_suspend := True\<rparr>))"
  using assms
  by (simp add: final_await_ready_def final_await_resume_def final_await_suspend_live finish_live)

theorem C2_final_awaiter_witness:
  "finish (Co_return (4::nat)) 0
     [0 \<mapsto> \<lparr>promise = (new_promise False :: (string, nat) task_promise)\<lparr>parent := Some 7\<rparr>,
             at_final_suspend = False\<rparr>]
   = Inr (Coroutine 7,
          [0 \<mapsto> \<lparr>promise = (new_promise False)\<lparr>parent := Some 7, stored_value := Some 4\<rparr>,
                  at_final_suspend = True\<rparr>])
   \<and> finish (Throw ''boom'') 0 [0 \<mapsto> new_frame False :: (string, nat) coroutine_frame]
   = Inr (Noop_coroutine,
          [0 \<mapsto> \<lparr>promise = (new_promise False)\<lparr>exception := Some ''boom''\<rparr>,
                  at_final_suspend = True\<rparr>])"
  using C2_final_awaiter
    [of "[0 \<mapsto> \<lparr>promise = (new_promise False :: (string, nat) task_promise)\<lparr>parent := Some 7\<rparr>,
             at_final_suspend = False\<rparr>]" 0 _ "Co_return 4"]
    C2_final_awaiter
    [of "[0 \<mapsto> new_frame False :: (string, nat) coroutine_frame]" 0 _ "Throw ''boom''"]
  by (simp add: new_frame_def new_promise_def return_value_def unhandled_exception_def)


section \<open>The readiness check\<close>

lemma heap_upd_neq:
  "s h = Some f \<Longrightarrow> lock_calls (mutex (promise f')) \<noteq> lock_calls (mutex (promise f)) \<Longrightarrow> s(h \<mapsto> f') \<noteq> s"
  by (metis fun_upd_same option.inject)

lemma await_ready_fast:
  "handle t = Some h \<Longrightarrow> s h = Some f \<Longrightarrow> is_sync (promise f) \<Longrightarrow> await_ready t s = Inr (True, s)"
  by (simp add: await_ready_def)

lemma await_ready_slow:
  assumes "handle t = Some h" and "s h = Some f" and "\<not> is_sync (promise f)"
    and "\<not> locked (mutex (promise f))"
  shows "await_ready t s =
           Inr (at_final_suspend f,
                s(h \<mapsto> f\<lparr>promise := (promise f)\<lparr>mutex := unlock (the (lock (mutex (promise f))))\<rparr>\<rparr>))"
  using assms by (simp add: await_ready_def lock_def)

lemma await_ready_fast_iff:
  assumes "handle t = Some h" and "s h = Some f"
  shows "(await_ready t s = Inr (True, s)) = is_sync (promise f)"
proof (cases "is_sync (promise f)")
  case True
  with assms show ?thesis by (simp add: await_ready_fast)
next
  case ns: False
  let ?f' = "f\<lparr>promise := (promise f)\<lparr>mutex := unlock (the (lock (mutex (promise f))))\<rparr>\<rparr>"
  show ?thesis
  proof (cases "locked (mutex (promise f))")
    case True
    with ns assms show ?thesis by (simp add: await_ready_def lock_def)
  next
    case False
    then have "lock_calls (mutex (promise ?f')) \<noteq> lock_calls (mutex (promise f))"
      by (simp add: lock_def unlock_def)
    with assms(2) have "s(h \<mapsto> ?f') \<noteq> s" by (rule heap_upd_neq)
    with await_ready_slow [of t h s f] assms ns False show ?thesis by simp
  qed
qed

lemma ready_run_section:
  assumes "s h = Some f" and "\<not> is_sync (promise f)" and "\<not> locked (mutex (promise f))"
  shows "mutex_held h (snd ((ready_step h ^^ n) (At_sync_test, s)))
           = ready_in_critical_section (fst ((ready_step h ^^ n) (At_sync_test, s)))
       \<and> mutex_lock_calls h (snd ((ready_step h ^^ n) (At_sync_test, s)))
           = lock_calls (mutex (promise f))
             + (if fst ((ready_step h ^^ n) (At_sync_test, s)) \<in> {At_sync_test, At_ready_lock} then 0 else 1)"
proof -
  let ?inv = "\<lambda>(pc, s'). (\<exists>f1. s' h = Some f1 \<and> \<not> is_sync (promise f1))
       \<and> mutex_held h s' = ready_in_critical_section pc
       \<and> mutex_lock_calls h s' = lock_calls (mutex (promise f))
             + (if pc \<in> {At_sync_test, At_ready_lock} then 0 else 1)"
  have step: "?inv (ready_step h x)" if "?inv x" for x
  proof -
    obtain pc s' where x: "x = (pc, s')" by (cases x)
    with that show ?thesis
      by (cases pc)
         (auto simp add: ready_step_def mutex_held_def mutex_lock_calls_def lock_def unlock_def)
  qed
  have "?inv ((ready_step h ^^ n) (At_sync_test, s))"
  proof (induction n)
    case 0
    from assms show ?case by (simp add: mutex_held_def mutex_lock_calls_def)
  next
    case (Suc n)
    from step [OF Suc] show ?case by simp
  qed
  then show ?thesis by (simp add: case_prod_beta)
qed

text \<open>
  C3, as the claim states it, fails. A task whose body awaits one object that is not
  ready when \<open>await_transform\<close> asks and ready when the language asks (it completed
  in between): \<open>await_transform\<close> clears \<open>is_sync\<close>, the body does not suspend
  and runs to its end inside the call that created the task. The caller receives a task
  that never suspended and is done, and \<open>await_ready\<close> does not take the fast path
  on it: it acquires the mutex and reads \<open>done\<close>.
\<close>

theorem C3_fast_path_counterexample:
  "start_task False 0 [Await (Awaiter_itself False) True] (Co_return (4::nat)) Map.empty
     = Inr (\<lparr>handle = Some 0\<rparr>, Ran_to_end Noop_coroutine,
            [0 \<mapsto> \<lparr>promise = (new_promise False :: (string, nat) task_promise)
                       \<lparr>is_sync := False, stored_value := Some 4\<rparr>,
                    at_final_suspend = True\<rparr>])
   \<and> await_ready \<lparr>handle = Some 0\<rparr>
        [0 \<mapsto> \<lparr>promise = (new_promise False :: (string, nat) task_promise)
                   \<lparr>is_sync := False, stored_value := Some 4\<rparr>,
                at_final_suspend = True\<rparr>]
     = Inr (True,
            [0 \<mapsto> \<lparr>promise = (new_promise False)
                       \<lparr>mutex := \<lparr>locked = False, lock_calls = 1\<rparr>, is_sync := False,
                        stored_value := Some 4\<rparr>,
                    at_final_suspend = True\<rparr>])"
  by (simp add: start_task_def initial_suspend_def get_return_object_def Let_def
        finish_def reach_final_suspend_def final_await_ready_def final_await_suspend_def
        return_value_def await_ready_def new_frame_def new_promise_def lock_def unlock_def)

text \<open>
  C3, amended. On a task bound to a live frame. With \<open>is_sync\<close> true on a task that
  is done, \<open>await_ready\<close> answers true in one step and leaves the heap as it is,
  mutex included. With \<open>is_sync\<close> false it does not get past its \<open>lock()\<close> while
  the mutex is held; when the mutex is free it returns what \<open>handle.done()\<close> says,
  the mutex acquired exactly once and free again, nothing else changed; step by step,
  after two steps it stands at the read of \<open>done\<close>, and in every state of the run
  the mutex is held exactly between the \<open>lock()\<close> and the return, so at that read.
  So on a task that is done the fast path is taken exactly when \<open>is_sync\<close> is still
  true, which by C8 is when no \<open>await_transform\<close> has seen an awaiter that was not
  ready, whether or not the task then suspended.
\<close>

theorem C3_await_ready:
  assumes "handle t = Some h" and "s h = Some f"
  shows "(is_sync (promise f) \<and> at_final_suspend f \<longrightarrow>
            await_ready t s = Inr (True, s)
            \<and> ready_step h (At_sync_test, s) = (Ready_returned True, s))
       \<and> (\<not> is_sync (promise f) \<and> locked (mutex (promise f)) \<longrightarrow>
            await_ready t s = Inl blocks_on_mutex
            \<and> ready_step h (At_sync_test, s) = (At_ready_lock, s)
            \<and> ready_step h (At_ready_lock, s) = (At_ready_lock, s))
       \<and> (\<not> is_sync (promise f) \<and> \<not> locked (mutex (promise f)) \<longrightarrow>
            (\<exists>f'. await_ready t s = Inr (at_final_suspend f, s(h \<mapsto> f'))
               \<and> lock_calls (mutex (promise f')) = Suc (lock_calls (mutex (promise f)))
               \<and> \<not> locked (mutex (promise f'))
               \<and> parent (promise f') = parent (promise f)
               \<and> exception (promise f') = exception (promise f)
               \<and> is_sync (promise f') = is_sync (promise f)
               \<and> stored_value (promise f') = stored_value (promise f)
               \<and> returns_void (promise f') = returns_void (promise f)
               \<and> at_final_suspend f' = at_final_suspend f
               \<and> ready_step h (ready_step h (ready_step h (ready_step h (At_sync_test, s))))
                   = (Ready_returned (at_final_suspend f), s(h \<mapsto> f')))
            \<and> fst (ready_step h (ready_step h (At_sync_test, s))) = At_done_read
            \<and> (\<forall>n. mutex_held h (snd ((ready_step h ^^ n) (At_sync_test, s)))
                     = ready_in_critical_section (fst ((ready_step h ^^ n) (At_sync_test, s)))
                   \<and> mutex_lock_calls h (snd ((ready_step h ^^ n) (At_sync_test, s)))
                     = lock_calls (mutex (promise f))
                       + (if fst ((ready_step h ^^ n) (At_sync_test, s)) \<in> {At_sync_test, At_ready_lock}
                          then 0 else 1)))
       \<and> (at_final_suspend f \<longrightarrow> (await_ready t s = Inr (True, s)) = is_sync (promise f))"
proof (intro conjI impI)
  assume a: "is_sync (promise f) \<and> at_final_suspend f"
  with assms show "await_ready t s = Inr (True, s)" by (simp add: await_ready_fast)
  from a assms show "ready_step h (At_sync_test, s) = (Ready_returned True, s)"
    by (simp add: ready_step_def)
next
  assume a: "\<not> is_sync (promise f) \<and> locked (mutex (promise f))"
  with assms show "await_ready t s = Inl blocks_on_mutex" by (simp add: await_ready_def lock_def)
  from a assms show "ready_step h (At_sync_test, s) = (At_ready_lock, s)"
    by (simp add: ready_step_def)
  from a assms show "ready_step h (At_ready_lock, s) = (At_ready_lock, s)"
    by (simp add: ready_step_def lock_def)
next
  assume a: "\<not> is_sync (promise f) \<and> \<not> locked (mutex (promise f))"
  let ?f' = "f\<lparr>promise := (promise f)\<lparr>mutex := unlock (the (lock (mutex (promise f))))\<rparr>\<rparr>"
  from a assms show "\<exists>f'. await_ready t s = Inr (at_final_suspend f, s(h \<mapsto> f'))
               \<and> lock_calls (mutex (promise f')) = Suc (lock_calls (mutex (promise f)))
               \<and> \<not> locked (mutex (promise f'))
               \<and> parent (promise f') = parent (promise f)
               \<and> exception (promise f') = exception (promise f)
               \<and> is_sync (promise f') = is_sync (promise f)
               \<and> stored_value (promise f') = stored_value (promise f)
               \<and> returns_void (promise f') = returns_void (promise f)
               \<and> at_final_suspend f' = at_final_suspend f
               \<and> ready_step h (ready_step h (ready_step h (ready_step h (At_sync_test, s))))
                   = (Ready_returned (at_final_suspend f), s(h \<mapsto> f'))"
    by (intro exI [of _ ?f']) (simp add: await_ready_slow ready_step_def lock_def unlock_def)
  from a assms show "fst (ready_step h (ready_step h (At_sync_test, s))) = At_done_read"
    by (simp add: ready_step_def lock_def)
  from a assms ready_run_section [of s h f]
  show "\<forall>n. mutex_held h (snd ((ready_step h ^^ n) (At_sync_test, s)))
                     = ready_in_critical_section (fst ((ready_step h ^^ n) (At_sync_test, s)))
                   \<and> mutex_lock_calls h (snd ((ready_step h ^^ n) (At_sync_test, s)))
                     = lock_calls (mutex (promise f))
                       + (if fst ((ready_step h ^^ n) (At_sync_test, s)) \<in> {At_sync_test, At_ready_lock}
                          then 0 else 1)"
    by blast
next
  assume "at_final_suspend f"
  from assms show "(await_ready t s = Inr (True, s)) = is_sync (promise f)"
    by (simp add: await_ready_fast_iff [of t h s f])
qed

theorem C3_await_ready_witness:
  "await_ready \<lparr>handle = Some 0\<rparr>
      [0 \<mapsto> \<lparr>promise = (new_promise False :: (string, nat) task_promise)\<lparr>stored_value := Some 4\<rparr>,
              at_final_suspend = True\<rparr>]
    = Inr (True, [0 \<mapsto> \<lparr>promise = (new_promise False)\<lparr>stored_value := Some 4\<rparr>,
              at_final_suspend = True\<rparr>])
   \<and> (\<exists>f'. await_ready \<lparr>handle = Some 0\<rparr> [0 \<mapsto> suspended_task] = Inr (False, [0 \<mapsto> f'])
         \<and> lock_calls (mutex (promise f')) = 1 \<and> \<not> locked (mutex (promise f')))
   \<and> fst (ready_step 0 (ready_step 0 (At_sync_test, [0 \<mapsto> suspended_task]))) = At_done_read
   \<and> mutex_held 0 (snd (ready_step 0 (ready_step 0 (At_sync_test, [0 \<mapsto> suspended_task]))))
   \<and> await_ready \<lparr>handle = Some 0\<rparr>
      [0 \<mapsto> \<lparr>promise = (new_promise False :: (string, nat) task_promise)
                 \<lparr>mutex := \<lparr>locked = True, lock_calls = 1\<rparr>, is_sync := False\<rparr>,
              at_final_suspend = False\<rparr>]
    = Inl blocks_on_mutex"
  using C3_await_ready
    [where t = "\<lparr>handle = Some 0\<rparr>" and h = 0
       and s = "[0 \<mapsto> \<lparr>promise = (new_promise False :: (string, nat) task_promise)\<lparr>stored_value := Some 4\<rparr>,
              at_final_suspend = True\<rparr>]"
       and f = "\<lparr>promise = (new_promise False :: (string, nat) task_promise)\<lparr>stored_value := Some 4\<rparr>,
              at_final_suspend = True\<rparr>"]
    C3_await_ready
    [where t = "\<lparr>handle = Some 0\<rparr>" and h = 0 and s = "[0 \<mapsto> suspended_task]"
       and f = suspended_task]
    C3_await_ready
    [where t = "\<lparr>handle = Some 0\<rparr>" and h = 0
       and s = "[0 \<mapsto> \<lparr>promise = (new_promise False :: (string, nat) task_promise)
                 \<lparr>mutex := \<lparr>locked = True, lock_calls = 1\<rparr>, is_sync := False\<rparr>,
              at_final_suspend = False\<rparr>]"
       and f = "\<lparr>promise = (new_promise False :: (string, nat) task_promise)
                 \<lparr>mutex := \<lparr>locked = True, lock_calls = 1\<rparr>, is_sync := False\<rparr>,
              at_final_suspend = False\<rparr>"]
  by (auto simp add: new_promise_def suspended_task_def ready_step_def mutex_held_def
        lock_def unlock_def)

text \<open>
  The states the amended C3 speaks of are those a caller meets when no awaiter of the
  body answers "ready" to \<open>await_transform\<close> and "not ready" to the language: then
  the task the caller receives, and the task after any later run of its body, has
  \<open>is_sync\<close> false or is done.
\<close>

lemma is_sync_await_transform: "is_sync (await_transform a p) = (is_sync p \<and> awaiter_ready a)"
  by (cases a) simp_all

lemma run_body_flag:
  assumes "list_all consistent body" and "s h = Some f" and "run_body body e h s = Inr (st, s')"
  shows "\<exists>f'. s' h = Some f' \<and> (is_sync (promise f') \<longrightarrow> at_final_suspend f')"
  using assms
proof (induction body arbitrary: s f)
  case Nil
  then show ?case by (auto simp add: finish_live)
next
  case (Cons p body)
  obtain a r where p: "p = Await a r" by (cases p)
  let ?f1 = "f\<lparr>promise := await_transform a (promise f)\<rparr>"
  show ?case
  proof (cases r)
    case True
    with Cons.prems p have run: "run_body body e h (s(h \<mapsto> ?f1)) = Inr (st, s')"
      by (simp add: Let_def)
    from Cons.prems(1) have "list_all consistent body" by simp
    from Cons.IH [OF this _ run, of ?f1] show ?thesis by simp
  next
    case False
    with Cons.prems p have "s' = s(h \<mapsto> ?f1)" and "\<not> awaiter_ready a"
      by (simp_all add: Let_def)
    then show ?thesis by (simp add: is_sync_await_transform)
  qed
qed

lemma start_task_flag:
  assumes "list_all consistent body" and "start_task is_void h body e s = Inr (t, st, s')"
  shows "handle t = Some h \<and> (\<exists>f'. s' h = Some f' \<and> (is_sync (promise f') \<longrightarrow> at_final_suspend f'))"
proof -
  let ?s0 = "s(h \<mapsto> new_frame is_void)"
  from assms(2) have t: "t = get_return_object h" and run: "run_body body e h ?s0 = Inr (st, s')"
    by (auto simp add: start_task_def initial_suspend_def Let_def split: sum.splits)
  from run_body_flag [OF assms(1) _ run, of "new_frame is_void"] t show ?thesis
    by (simp add: get_return_object_def)
qed

text \<open>
  Left out of the amended C3: an awaiter that answers "ready" to \<open>await_transform\<close>
  and "not ready" to the language leaves a task that has suspended and is not done with
  \<open>is_sync\<close> still true; on it \<open>await_ready\<close> answers true, and
  \<open>await_resume\<close> then dereferences the empty slot.
\<close>

lemma ready_then_not_ready_awaiter:
  "start_task False 0 [Await (Awaiter_itself True) False] (Co_return (4::nat)) Map.empty
     = Inr (\<lparr>handle = Some 0\<rparr>, Suspended_before [],
            [0 \<mapsto> new_frame False :: (string, nat) coroutine_frame])
   \<and> await_ready \<lparr>handle = Some 0\<rparr> [0 \<mapsto> new_frame False :: (string, nat) coroutine_frame]
     = Inr (True, [0 \<mapsto> new_frame False])
   \<and> co_await \<lparr>handle = Some 0\<rparr> 7 [0 \<mapsto> new_frame False :: (string, nat) coroutine_frame]
     = Inl undefined_behaviour"
  by (simp add: start_task_def initial_suspend_def get_return_object_def Let_def
        co_await_def resume_now_def await_ready_def await_resume_def new_frame_def new_promise_def)

section \<open>Extracting the result\<close>

text \<open>
  C4. On a task bound to a live frame (a completed one in particular):
  a stored exception is rethrown as it is, and then no value is returned; with no
  exception, a stored value is returned and its slot is empty afterwards, the rest of
  the heap unchanged; a \<open>task<void>\<close> returns nothing and changes nothing. And the
  exception \<open>unhandled_exception\<close> captured is the one rethrown.
\<close>

theorem C4_await_resume:
  assumes "handle t = Some h" and "s h = Some f"
  shows "(exception (promise f) = Some e \<longrightarrow>
            await_resume t s = Inl (rethrow_exception e)
            \<and> (\<forall>v s'. await_resume t s \<noteq> Inr (v, s')))
       \<and> (exception (promise f) = None \<and> \<not> returns_void (promise f) \<and> stored_value (promise f) = Some v \<longrightarrow>
            await_resume t s = Inr (Result v, s(h \<mapsto> f\<lparr>promise := (promise f)\<lparr>stored_value := None\<rparr>\<rparr>)))
       \<and> (exception (promise f) = None \<and> returns_void (promise f) \<longrightarrow>
            await_resume t s = Inr (Void, s))
       \<and> await_resume t (s(h \<mapsto> f\<lparr>promise := unhandled_exception x (promise f)\<rparr>))
            = Inl (rethrow_exception x)"
  using assms by (simp add: await_resume_def unhandled_exception_def)

theorem C4_await_resume_witness:
  "await_resume \<lparr>handle = Some 0\<rparr>
      [0 \<mapsto> \<lparr>promise = (new_promise False :: (string, nat) task_promise)\<lparr>exception := Some ''boom''\<rparr>,
              at_final_suspend = True\<rparr>]
     = Inl (rethrow_exception ''boom'')
   \<and> await_resume \<lparr>handle = Some 0\<rparr>
      [0 \<mapsto> \<lparr>promise = (new_promise False :: (string, nat) task_promise)\<lparr>stored_value := Some 4\<rparr>,
              at_final_suspend = True\<rparr>]
     = Inr (Result 4, [0 \<mapsto> \<lparr>promise = new_promise False, at_final_suspend = True\<rparr>])"
  using C4_await_resume
    [where t = "\<lparr>handle = Some 0\<rparr>" and h = 0 and e = "''boom''"
       and s = "[0 \<mapsto> \<lparr>promise = (new_promise False :: (string, nat) task_promise)\<lparr>exception := Some ''boom''\<rparr>,
              at_final_suspend = True\<rparr>]"
       and f = "\<lparr>promise = (new_promise False :: (string, nat) task_promise)\<lparr>exception := Some ''boom''\<rparr>,
              at_final_suspend = True\<rparr>"]
    C4_await_resume
    [where t = "\<lparr>handle = Some 0\<rparr>" and h = 0 and v = 4
       and s = "[0 \<mapsto> \<lparr>promise = (new_promise False :: (string, nat) task_promise)\<lparr>stored_value := Some 4\<rparr>,
              at_final_suspend = True\<rparr>]"
       and f = "\<lparr>promise = (new_promise False :: (string, nat) task_promise)\<lparr>stored_value := Some 4\<rparr>,
              at_final_suspend = True\<rparr>"]
  by (simp add: new_promise_def)


text \<open>The same, from the end of the body on.\<close>

lemma finish_then_resume_value:
  assumes "s h = Some f" and "exception (promise f) = None" and "\<not> returns_void (promise f)"
    and "finish (Co_return v) h s = Inr (target, s1)"
  shows "\<exists>s2 f2. await_resume \<lparr>handle = Some h\<rparr> s1 = Inr (Result v, s2) \<and> s2 h = Some f2
           \<and> stored_value (promise f2) = None"
  using assms by (auto simp add: finish_live await_resume_def return_value_def)

lemma finish_then_resume_throw:
  assumes "s h = Some f" and "finish (Throw e) h s = Inr (target, s1)"
  shows "await_resume \<lparr>handle = Some h\<rparr> s1 = Inl (rethrow_exception e)"
  using assms by (auto simp add: finish_live await_resume_def unhandled_exception_def)


section \<open>Awaiting an empty task, awaiting a task twice\<close>








section \<open>Destroying a task\<close>

text \<open>
  C6, as the claim states it, fails in a build with \<open>NDEBUG\<close> defined: the
  destructor of a task whose coroutine has suspended and not finished frees the frame
  and reports nothing.
\<close>

theorem C6_unchecked_destruction_counterexample:
  "task_destructor True \<lparr>handle = Some 0\<rparr>
      [0 \<mapsto> \<lparr>promise = (new_promise False :: (string, nat) task_promise)\<lparr>is_sync := False\<rparr>,
              at_final_suspend = False\<rparr>]
   = Inr Map.empty"
  by (simp add: task_destructor_def)

text \<open>
  C6, amended. Destroying an empty task changes nothing, and destroying a task whose
  coroutine is done frees its frame, in both builds. Destroying a task whose coroutine
  is not done fails the assertion in a build with assertions (\<open>NDEBUG\<close> not defined),
  in every case; with \<open>NDEBUG\<close> defined no test is made and the frame is freed.
\<close>

theorem C6_destructor:
  "(handle t = None \<longrightarrow> task_destructor ndebug t s = Inr s)
   \<and> (handle t = Some h \<and> s h = Some f \<and> at_final_suspend f \<longrightarrow>
        task_destructor ndebug t s = Inr (s(h := None)))
   \<and> (handle t = Some h \<and> s h = Some f \<and> \<not> at_final_suspend f \<longrightarrow>
        task_destructor False t s
          = Inl (assertion_failure ''dpp::task's coroutine must be finished before destroying'')
        \<and> task_destructor True t s = Inr (s(h := None)))"
  by (simp add: task_destructor_def)

theorem C6_destructor_witness:
  "task_destructor False \<lparr>handle = None\<rparr> (Map.empty :: (string, nat) heap) = Inr Map.empty
   \<and> task_destructor False \<lparr>handle = Some 0\<rparr>
        [0 \<mapsto> \<lparr>promise = (new_promise False :: (string, nat) task_promise), at_final_suspend = True\<rparr>]
      = Inr Map.empty
   \<and> task_destructor False \<lparr>handle = Some 0\<rparr>
        [0 \<mapsto> \<lparr>promise = (new_promise False :: (string, nat) task_promise), at_final_suspend = False\<rparr>]
      = Inl (assertion_failure ''dpp::task's coroutine must be finished before destroying'')"
  using C6_destructor [where t = "\<lparr>handle = None\<rparr>" and ndebug = False
      and s = "Map.empty :: (string, nat) heap"]
    C6_destructor [where t = "\<lparr>handle = Some 0\<rparr>" and h = 0 and ndebug = False
      and s = "[0 \<mapsto> \<lparr>promise = (new_promise False :: (string, nat) task_promise), at_final_suspend = True\<rparr>]"
      and f = "\<lparr>promise = (new_promise False :: (string, nat) task_promise), at_final_suspend = True\<rparr>"]
    C6_destructor [where t = "\<lparr>handle = Some 0\<rparr>" and h = 0 and ndebug = False
      and s = "[0 \<mapsto> \<lparr>promise = (new_promise False :: (string, nat) task_promise), at_final_suspend = False\<rparr>]"
      and f = "\<lparr>promise = (new_promise False :: (string, nat) task_promise), at_final_suspend = False\<rparr>"]
  by simp

section \<open>Operations with no test of the handle\<close>

text \<open>
  C9. On an empty task, \<open>done()\<close> and \<open>await_suspend\<close> dereference the null handle,
  which is undefined, where \<open>await_ready\<close> throws \<open>invalid_operation_exception\<close>;
  neither of the two throws that exception on any input; on a task bound to a live
  frame \<open>done()\<close> returns, and so does \<open>await_suspend\<close> when the mutex is free.
\<close>

theorem C9_no_empty_guard:
  "(handle t = None \<longrightarrow>
      task_done t s = Inl undefined_behaviour
      \<and> await_suspend t caller s = Inl undefined_behaviour
      \<and> await_ready t s = Inl (invalid_operation_exception ''cannot co_await an empty task''))
   \<and> task_done t s \<noteq> Inl (invalid_operation_exception msg)
   \<and> await_suspend t caller s \<noteq> Inl (invalid_operation_exception msg)
   \<and> (handle t = Some h \<and> s h = Some f \<longrightarrow>
        task_done t s = Inr (at_final_suspend f)
        \<and> (\<not> locked (mutex (promise f)) \<longrightarrow> (\<exists>s'. await_suspend t caller s = Inr (\<not> at_final_suspend f, s'))))"
  by (auto simp add: task_done_def await_suspend_def await_ready_def lock_def
        split: option.splits)

theorem C9_no_empty_guard_witness:
  "task_done \<lparr>handle = None\<rparr> (Map.empty :: (string, nat) heap) = Inl undefined_behaviour
   \<and> await_suspend \<lparr>handle = None\<rparr> 7 (Map.empty :: (string, nat) heap) = Inl undefined_behaviour
   \<and> await_ready \<lparr>handle = None\<rparr> (Map.empty :: (string, nat) heap)
        = Inl (invalid_operation_exception ''cannot co_await an empty task'')
   \<and> task_done \<lparr>handle = Some 0\<rparr> [0 \<mapsto> new_frame False :: (string, nat) coroutine_frame] = Inr False"
  using C9_no_empty_guard [where t = "\<lparr>handle = None\<rparr>" and s = "Map.empty :: (string, nat) heap"
      and caller = 7]
    C9_no_empty_guard [where t = "\<lparr>handle = Some 0\<rparr>" and h = 0 and caller = 7
      and s = "[0 \<mapsto> new_frame False :: (string, nat) coroutine_frame]" and f = "new_frame False"]
  by (simp add: new_frame_def)

section \<open>Moving a task\<close>

lemma moves_between_two_objects:
  assumes "this \<noteq> other" and "objects m other = Some src"
  shows "(objects m this = Some dst \<longrightarrow>
           (\<exists>m'. move_assign this other m = Inr m'
              \<and> objects m' this = Some \<lparr>handle = handle src\<rparr>
              \<and> objects m' other = Some \<lparr>handle = None\<rparr>
              \<and> (\<forall>a. a \<noteq> this \<and> a \<noteq> other \<longrightarrow> objects m' a = objects m a)
              \<and> frames m' = frames m))
       \<and> (objects m this = None \<longrightarrow>
           (\<exists>m'. move_construct this other m = Inr m'
              \<and> objects m' this = Some \<lparr>handle = handle src\<rparr>
              \<and> objects m' other = Some \<lparr>handle = None\<rparr>
              \<and> (\<forall>a. a \<noteq> this \<and> a \<noteq> other \<longrightarrow> objects m' a = objects m a)
              \<and> frames m' = frames m))"
  using assms
  by (auto simp add: move_assign_def move_construct_def exchange_handle_def)


lemma self_move_assign:
  "objects m this = Some tt \<Longrightarrow> move_assign this this m = Inr m"
  by (simp add: move_assign_def exchange_handle_def fun_upd_idem)



text \<open>
  C10, as the claim states it, fails when the pair is one task taken twice: after
  \<open>t = std::move(t)\<close> the task still holds its handle, where the claim has the
  source left empty.
\<close>

theorem C10_self_assignment_counterexample:
  "move_assign 0 0 \<lparr>objects = [0 \<mapsto> \<lparr>handle = Some 5\<rparr>], frames = [5 \<mapsto> suspended_task]\<rparr>
     = Inr \<lparr>objects = [0 \<mapsto> \<lparr>handle = Some 5\<rparr>], frames = [5 \<mapsto> suspended_task]\<rparr>"
  by (simp add: move_assign_def exchange_handle_def)

text \<open>
  C10, amended. For two different task objects, the source alive: move assignment to a
  live target, and move construction of a new object, both leave the target holding the
  handle the source held and the source empty; no other task object changes, and no
  coroutine frame changes, the frame the target was bound to before included. Move
  assignment of a task to itself changes nothing: the task keeps its handle.
\<close>

theorem C10_moves:
  "(this \<noteq> other \<and> objects m other = Some src \<longrightarrow>
      (objects m this = Some dst \<longrightarrow>
         (\<exists>m'. move_assign this other m = Inr m'
            \<and> objects m' this = Some \<lparr>handle = handle src\<rparr>
            \<and> objects m' other = Some \<lparr>handle = None\<rparr>
            \<and> (\<forall>a. a \<noteq> this \<and> a \<noteq> other \<longrightarrow> objects m' a = objects m a)
            \<and> frames m' = frames m))
    \<and> (objects m this = None \<longrightarrow>
         (\<exists>m'. move_construct this other m = Inr m'
            \<and> objects m' this = Some \<lparr>handle = handle src\<rparr>
            \<and> objects m' other = Some \<lparr>handle = None\<rparr>
            \<and> (\<forall>a. a \<noteq> this \<and> a \<noteq> other \<longrightarrow> objects m' a = objects m a)
            \<and> frames m' = frames m)))
   \<and> (objects m this = Some dst \<longrightarrow> move_assign this this m = Inr m)"
  using moves_between_two_objects [of this other m src dst] self_move_assign [of m this dst]
  by blast

theorem C10_moves_witness:
  "move_assign 0 1
      \<lparr>objects = [0 \<mapsto> \<lparr>handle = Some 5\<rparr>, 1 \<mapsto> \<lparr>handle = Some 6\<rparr>],
       frames = [5 \<mapsto> suspended_task, 6 \<mapsto> suspended_task]\<rparr>
     = Inr \<lparr>objects = [0 \<mapsto> \<lparr>handle = Some 6\<rparr>, 1 \<mapsto> \<lparr>handle = None\<rparr>],
            frames = [5 \<mapsto> suspended_task, 6 \<mapsto> suspended_task]\<rparr>
   \<and> move_construct 2 1
      \<lparr>objects = [1 \<mapsto> \<lparr>handle = Some 6\<rparr>], frames = [6 \<mapsto> suspended_task]\<rparr>
     = Inr \<lparr>objects = [1 \<mapsto> \<lparr>handle = None\<rparr>, 2 \<mapsto> \<lparr>handle = Some 6\<rparr>],
            frames = [6 \<mapsto> suspended_task]\<rparr>
   \<and> move_assign 1 1
      \<lparr>objects = [1 \<mapsto> \<lparr>handle = Some 6\<rparr>], frames = [6 \<mapsto> suspended_task]\<rparr>
     = Inr \<lparr>objects = [1 \<mapsto> \<lparr>handle = Some 6\<rparr>], frames = [6 \<mapsto> suspended_task]\<rparr>"
  using C10_moves [where this = 0 and other = 1 and src = "\<lparr>handle = Some 6\<rparr>"
      and dst = "\<lparr>handle = Some 5\<rparr>"
      and m = "\<lparr>objects = [0 \<mapsto> \<lparr>handle = Some 5\<rparr>, 1 \<mapsto> \<lparr>handle = Some 6\<rparr>],
       frames = [5 \<mapsto> suspended_task, 6 \<mapsto> suspended_task]\<rparr>"]
    C10_moves [where this = 2 and other = 1 and src = "\<lparr>handle = Some 6\<rparr>"
      and m = "\<lparr>objects = [1 \<mapsto> \<lparr>handle = Some 6\<rparr>], frames = [6 \<mapsto> suspended_task]\<rparr>"]
    C10_moves [where this = 1 and dst = "\<lparr>handle = Some 6\<rparr>"
      and m = "\<lparr>objects = [1 \<mapsto> \<lparr>handle = Some 6\<rparr>], frames = [6 \<mapsto> suspended_task]\<rparr>"]
  by (auto simp add: move_assign_def move_construct_def exchange_handle_def fun_upd_twist)

section \<open>The synchronous flag\<close>

lemma perform_is_sync:
  assumes "s h = Some f" and "perform op g s h = Some f'"
  shows "is_sync (promise f') =
           (case op of
              Op_await_transform a \<Rightarrow> if g = h then is_sync (promise f) \<and> awaiter_ready a else is_sync (promise f)
            | _ \<Rightarrow> is_sync (promise f))"
proof (cases op)
  case (Op_await_transform a)
  with assms show ?thesis
    by (auto simp add: on_promise_def is_sync_await_transform split: option.splits if_splits)
next
  case (Op_return_value v)
  with assms show ?thesis
    by (auto simp add: on_promise_def return_value_def split: option.splits if_splits)
next
  case Op_return_void
  with assms show ?thesis
    by (auto simp add: on_promise_def return_void_def split: option.splits if_splits)
next
  case (Op_unhandled_exception e)
  with assms show ?thesis
    by (auto simp add: on_promise_def unhandled_exception_def split: option.splits if_splits)
next
  case Op_final_suspend
  with assms show ?thesis
    by (auto simp add: reach_final_suspend_def final_await_ready_def final_await_suspend_def Let_def
          split: option.splits if_splits sum.splits)
next
  case Op_await_ready
  with assms show ?thesis
    by (auto simp add: await_ready_def lock_def unlock_def split: option.splits if_splits sum.splits)
next
  case (Op_await_suspend c)
  with assms show ?thesis
    by (auto simp add: await_suspend_def lock_def unlock_def split: option.splits if_splits sum.splits)
next
  case Op_await_resume
  with assms show ?thesis
    by (auto simp add: await_resume_def split: option.splits if_splits sum.splits)
next
  case Op_done
  with assms show ?thesis
    by (auto simp add: task_done_def split: option.splits if_splits sum.splits)
next
  case (Op_destructor nd)
  with assms show ?thesis
    by (auto simp add: task_destructor_def split: option.splits if_splits sum.splits)
qed

lemma perform_dom:
  assumes "perform op g s h = Some f'"
  shows "\<exists>f. s h = Some f"
proof (cases op)
  case (Op_await_transform a)
  with assms show ?thesis
    by (auto simp add: on_promise_def split: option.splits if_splits)
next
  case (Op_return_value v)
  with assms show ?thesis
    by (auto simp add: on_promise_def split: option.splits if_splits)
next
  case Op_return_void
  with assms show ?thesis
    by (auto simp add: on_promise_def split: option.splits if_splits)
next
  case (Op_unhandled_exception e)
  with assms show ?thesis
    by (auto simp add: on_promise_def split: option.splits if_splits)
next
  case Op_final_suspend
  with assms show ?thesis
    by (auto simp add: reach_final_suspend_def final_await_ready_def final_await_suspend_def Let_def
          split: option.splits if_splits sum.splits)
next
  case Op_await_ready
  with assms show ?thesis
    by (auto simp add: await_ready_def lock_def unlock_def split: option.splits if_splits sum.splits)
next
  case (Op_await_suspend c)
  with assms show ?thesis
    by (auto simp add: await_suspend_def lock_def unlock_def split: option.splits if_splits sum.splits)
next
  case Op_await_resume
  with assms show ?thesis
    by (auto simp add: await_resume_def split: option.splits if_splits sum.splits)
next
  case Op_done
  with assms show ?thesis
    by (auto simp add: task_done_def split: option.splits if_splits sum.splits)
next
  case (Op_destructor nd)
  with assms show ?thesis
    by (auto simp add: task_destructor_def split: option.splits if_splits sum.splits)
qed

lemma perform_all_dom: "perform_all ops s h = Some f' \<Longrightarrow> \<exists>f. s h = Some f"
proof (induction ops arbitrary: s)
  case Nil
  then show ?case by simp
next
  case (Cons x ops)
  obtain op g where x: "x = (op, g)" by (cases x)
  from Cons.prems x have "perform_all ops (perform op g s) h = Some f'" by simp
  from Cons.IH [OF this] obtain f1 where "perform op g s h = Some f1" by blast
  then show ?case by (rule perform_dom)
qed

lemma perform_all_keeps_false:
  "s h = Some f \<Longrightarrow> \<not> is_sync (promise f) \<Longrightarrow> perform_all ops s h = Some f'
     \<Longrightarrow> \<not> is_sync (promise f')"
proof (induction ops arbitrary: s f)
  case Nil
  then show ?case by simp
next
  case (Cons x ops)
  obtain op g where x: "x = (op, g)" by (cases x)
  from Cons.prems(3) x have run: "perform_all ops (perform op g s) h = Some f'" by simp
  from perform_all_dom [OF run] obtain f1 where f1: "perform op g s h = Some f1" by blast
  from perform_is_sync [OF Cons.prems(1) f1] Cons.prems(2) have "\<not> is_sync (promise f1)"
    by (cases op) (simp_all split: if_splits)
  from Cons.IH [OF f1 this run] show ?case .
qed

text \<open>
  C8. \<open>is_sync\<close> is true in a new promise; after \<open>await_transform\<close> it is true
  exactly if it was true and the awaiter said it was ready; an operation of the core on
  the coroutine at \<open>g\<close> leaves the flag of the coroutine at \<open>h\<close> as it was, unless
  it is that \<open>await_transform\<close> with an awaiter that is not ready on \<open>h\<close> itself,
  which makes it false; so a flag that is false stays false through every sequence of
  operations of the core. (The moves of task objects touch no frame, see C10.)
\<close>

theorem C8_is_sync:
  "is_sync (promise (new_frame is_void :: ('e, 'r) coroutine_frame))
   \<and> is_sync (await_transform a (p :: ('e, 'r) task_promise)) = (is_sync p \<and> awaiter_ready a)
   \<and> (s h = Some f \<and> perform op g s h = Some f' \<longrightarrow>
        is_sync (promise f') =
          (is_sync (promise f) \<and> \<not> (g = h \<and> (\<exists>b. op = Op_await_transform b \<and> \<not> awaiter_ready b))))
   \<and> (s h = Some f \<and> \<not> is_sync (promise f) \<and> perform_all ops s h = Some f'' \<longrightarrow>
        \<not> is_sync (promise f''))"
proof -
  have one: "is_sync (promise f') =
          (is_sync (promise f) \<and> \<not> (g = h \<and> (\<exists>b. op = Op_await_transform b \<and> \<not> awaiter_ready b)))"
    if "s h = Some f" "perform op g s h = Some f'"
    using perform_is_sync [OF that] by (cases op) auto
  show ?thesis
    using one perform_all_keeps_false [of s h f ops f'']
    by (simp add: new_frame_def new_promise_def is_sync_await_transform)
qed

theorem C8_is_sync_witness:
  "perform (Op_await_transform (Awaiter_itself True)) 0
       [0 \<mapsto> new_frame False :: (string, nat) coroutine_frame] 0
     = Some (new_frame False)
   \<and> perform (Op_await_transform (Awaiter_itself False)) 0
       [0 \<mapsto> new_frame False :: (string, nat) coroutine_frame] 0
     = Some suspended_task
   \<and> perform_all
         [(Op_await_transform (Member_co_await True), 0), (Op_return_value 4, 0), (Op_final_suspend, 0),
          (Op_await_ready, 0), (Op_await_suspend 7, 0), (Op_await_resume, 0), (Op_done, 0)]
         [0 \<mapsto> suspended_task] 0
     = Some \<lparr>promise = (new_promise False)\<lparr>mutex := \<lparr>locked = False, lock_calls = 2\<rparr>, is_sync := False\<rparr>,
             at_final_suspend = True\<rparr>
   \<and> is_sync (promise (new_frame False :: (string, nat) coroutine_frame))
   \<and> \<not> is_sync (promise suspended_task)"
  using C8_is_sync [where s = "[0 \<mapsto> new_frame False :: (string, nat) coroutine_frame]" and h = 0
      and g = 0 and f = "new_frame False" and op = "Op_await_transform (Awaiter_itself True)"
      and f' = "new_frame False"]
    C8_is_sync [where s = "[0 \<mapsto> new_frame False :: (string, nat) coroutine_frame]" and h = 0
      and g = 0 and f = "new_frame False" and op = "Op_await_transform (Awaiter_itself False)"
      and f' = suspended_task]
    C8_is_sync [where s = "[0 \<mapsto> suspended_task]" and h = 0 and f = suspended_task
      and ops = "[(Op_await_transform (Member_co_await True), 0), (Op_return_value 4, 0), (Op_final_suspend, 0),
          (Op_await_ready, 0), (Op_await_suspend 7, 0), (Op_await_resume, 0), (Op_done, 0)]"
      and f'' = "\<lparr>promise = (new_promise False)\<lparr>mutex := \<lparr>locked = False, lock_calls = 2\<rparr>, is_sync := False\<rparr>,
             at_final_suspend = True\<rparr>"]
  by (simp add: new_frame_def new_promise_def suspended_task_def on_promise_def return_value_def
        reach_final_suspend_def final_await_ready_def final_await_suspend_def final_suspend_def
        await_ready_def await_suspend_def await_resume_def task_done_def lock_def unlock_def)

section \<open>Registration racing completion\<close>

text \<open>
  Run alone, the waiter's four steps are \<open>await_suspend\<close>, and the completer's two
  are \<open>reach_final_suspend\<close>.
\<close>

lemma waiter_alone:
  assumes "s h = Some f" and "\<not> locked (mutex (promise f))"
  shows "\<exists>b s'. await_suspend \<lparr>handle = Some h\<rparr> caller s = Inr (b, s')
     \<and> run_schedule [Waiter, Waiter, Waiter, Waiter] h caller \<lparr>shared = s, waiter = At_lock, completer = c\<rparr>
         = \<lparr>shared = s', waiter = Returned b, completer = c\<rparr>"
  using assms
  by (auto simp add: await_suspend_def waiter_step_def lock_def unlock_def)

lemma completer_alone:
  assumes "s h = Some f"
  shows "\<exists>target s'. reach_final_suspend h s = Inr (target, s')
     \<and> run_schedule [Completer, Completer] h caller \<lparr>shared = s, waiter = w, completer = Before_final_suspend\<rparr>
         = \<lparr>shared = s', waiter = w, completer = Transferred target\<rparr>"
  using assms
  by (simp add: reach_final_suspend_def completer_step_def final_await_ready_def
        final_await_suspend_def Let_def split: option.splits)

lemmas race_simps = run_schedule.simps waiter_step_def completer_step_def race_start_def
  suspended_task_def new_promise_def lock_def unlock_def final_await_suspend_def


text \<open>
  C7 fails on the code. The waiter locks and finds the coroutine not done; the
  completer, which takes no lock, suspends the coroutine at its final suspend point,
  finds no parent and resumes the no-op coroutine; the waiter stores the caller, unlocks
  and returns true. Both threads are at their ends: the caller is suspended and
  registered, and nothing will resume it.
\<close>

theorem C7_missed_resumption:
  "run_schedule [Waiter, Waiter, Completer, Completer, Waiter, Waiter] 0 7 race_start
     = \<lparr>shared = [0 \<mapsto> \<lparr>promise = (new_promise False)
                        \<lparr>mutex := \<lparr>locked = False, lock_calls = 1\<rparr>, parent := Some 7, is_sync := False\<rparr>,
                      at_final_suspend = True\<rparr>],
        waiter = Returned True, completer = Transferred Noop_coroutine\<rparr>"
  by (simp add: race_simps)

text \<open>
  Once both threads are at their ends no step changes anything, so whatever runs after
  that interleaving the caller stays suspended.
\<close>

lemma both_threads_at_their_ends:
  assumes "waiter st = Returned b" and "completer st = Transferred x"
  shows "run_schedule ts h caller st = st"
proof (induction ts)
  case Nil
  show ?case by simp
next
  case (Cons t ts)
  have "waiter_step h caller st = st" "completer_step h st = st"
    using assms by (simp_all add: waiter_step_def completer_step_def split: option.splits)
  with Cons show ?case by (cases t) simp_all
qed

lemma missed_for_good:
  "run_schedule ([Waiter, Waiter, Completer, Completer, Waiter, Waiter] @ ts) 0 7 race_start
     = \<lparr>shared = [0 \<mapsto> \<lparr>promise = (new_promise False)
                        \<lparr>mutex := \<lparr>locked = False, lock_calls = 1\<rparr>, parent := Some 7, is_sync := False\<rparr>,
                      at_final_suspend = True\<rparr>],
        waiter = Returned True, completer = Transferred Noop_coroutine\<rparr>"
  by (simp add: race_simps both_threads_at_their_ends)

text \<open>
  The two orders in which the threads do not overlap behave as C7 says: the waiter
  first is resumed by the completion, the waiter last is told not to suspend.
\<close>

lemma waiter_first:
  "run_schedule [Waiter, Waiter, Waiter, Waiter, Completer, Completer] 0 7 race_start
     = \<lparr>shared = [0 \<mapsto> \<lparr>promise = (new_promise False)
                        \<lparr>mutex := \<lparr>locked = False, lock_calls = 1\<rparr>, parent := Some 7, is_sync := False\<rparr>,
                      at_final_suspend = True\<rparr>],
        waiter = Returned True, completer = Transferred (Coroutine 7)\<rparr>"
  by (simp add: race_simps)

lemma completer_first:
  "run_schedule [Completer, Completer, Waiter, Waiter, Waiter, Waiter] 0 7 race_start
     = \<lparr>shared = [0 \<mapsto> \<lparr>promise = (new_promise False)
                        \<lparr>mutex := \<lparr>locked = False, lock_calls = 1\<rparr>, is_sync := False\<rparr>,
                      at_final_suspend = True\<rparr>],
        waiter = Returned False, completer = Transferred Noop_coroutine\<rparr>"
  by (simp add: race_simps)

text \<open>
  What holds in every interleaving: the completion resumes no handle but the caller
  that registered, and only after it registered; being the completer's last step, the
  resumption happens at most once.
\<close>

lemma waiter_step_inv: "race_inv h caller st \<Longrightarrow> race_inv h caller (waiter_step h caller st)"
  by (auto simp add: race_inv_def waiter_step_def lock_def unlock_def
        split: option.splits waiter_pc.splits completer_pc.splits resume_target.splits if_splits)

lemma completer_step_inv: "race_inv h caller st \<Longrightarrow> race_inv h caller (completer_step h st)"
  by (auto simp add: race_inv_def completer_step_def final_await_suspend_def
        split: option.splits waiter_pc.splits completer_pc.splits resume_target.splits if_splits)

lemma run_schedule_inv: "race_inv h caller st \<Longrightarrow> race_inv h caller (run_schedule ts h caller st)"
proof (induction ts arbitrary: st)
  case Nil
  then show ?case by simp
next
  case (Cons t ts)
  then show ?case by (cases t) (simp_all add: waiter_step_inv completer_step_inv)
qed

lemma only_the_registered_caller_is_resumed:
  assumes "s h = Some f" and "parent (promise f) = None"
    and "completer (run_schedule ts h caller \<lparr>shared = s, waiter = At_lock, completer = Before_final_suspend\<rparr>)
           = Transferred (Coroutine c)"
  shows "c = caller
       \<and> waiter (run_schedule ts h caller \<lparr>shared = s, waiter = At_lock, completer = Before_final_suspend\<rparr>)
           \<in> {At_return True, Returned True}"
proof -
  let ?st0 = "\<lparr>shared = s, waiter = At_lock, completer = Before_final_suspend\<rparr>"
  have "race_inv h caller ?st0" using assms(1,2) by (simp add: race_inv_def)
  from run_schedule_inv [OF this, of ts] assms(3) show ?thesis
    by (auto simp add: race_inv_def split: option.splits)
qed


end
